theory Spec2Isabelle
  imports Complex_Main "HOL-Library.AList" "HOL-Library.Multiset" "HOL-Library.Char_ord"
    "HOL-Library.List_Lexorder" "HOL-Library.Product_Lexorder"
begin

section \<open>Data model (package types)\<close>

text \<open>
  A Go \<open>string\<close> and a \<open>[]byte\<close> are byte sequences; an \<open>error\<close> is carried by its
  message (what \<open>err.Error()\<close> returns).  A \<open>time.Time\<close> is an instant, counted in
  nanoseconds; a \<open>*time.Time\<close> is an optional instant (\<open>None\<close> is the nil pointer).
  \<open>Expire\<close> is an \<open>int64\<close>; the code modelled here only stores, copies and compares it,
  so it is an \<open>int\<close>.
\<close>

type_synonym bytes = string
type_synonym error = string
type_synonym time = int

record DomainKey =
  AppID :: string
  Date :: "time option"
  DomainName :: string
  Expire :: int
  File :: string
  Fqdn :: string
  Key :: string
  LastError :: string

record FileKeys =
  Keys :: "DomainKey list"

record FileStructure =
  Payload :: FileKeys
  Signature :: string


section \<open>The standard library's \<open>sort.Slice\<close>\<close>

text \<open>
  \<open>sort.Slice(x, less)\<close> sorts in place and is not stable.  For a slice of at most twelve
  elements it runs the insertion sort below (\<open>insertionSortLessFunc\<close>: element \<open>i\<close> is
  swapped leftwards while \<open>less(j, j-1)\<close>); for longer slices it runs a pattern-defeating
  quicksort, whose result can differ only in the order of elements that \<open>less\<close> does not
  separate.  \<open>insert_back\<close> works on the already sorted prefix, last element first.
\<close>

fun insert_back :: "('a \<Rightarrow> 'a \<Rightarrow> bool) \<Rightarrow> 'a \<Rightarrow> 'a list \<Rightarrow> 'a list" where
  "insert_back lt x [] = [x]"
| "insert_back lt x (p # ps) =
     (if lt x p then p # insert_back lt x ps else x # p # ps)"

definition sort_Slice :: "('a \<Rightarrow> 'a \<Rightarrow> bool) \<Rightarrow> 'a list \<Rightarrow> 'a list" where
  "sort_Slice lt xs = rev (foldl (\<lambda>acc x. insert_back lt x acc) [] xs)"

section \<open>Signer and \<open>SignedKeys\<close>\<close>

text \<open>
  What the signing path calls outside the repository: the JSON canonicalizer, SHA-512,
  RSASSA-PKCS1-v1_5 with the loaded private key, base64, and \<open>json.MarshalIndent\<close> at the two
  types it is used at.  Each call that can fail returns its error on the left.
\<close>

record library =
  Transform :: "bytes \<Rightarrow> error + bytes"
  Sum512 :: "bytes \<Rightarrow> bytes"
  SignPKCS1v15 :: "bytes \<Rightarrow> error + bytes"
  EncodeToString :: "bytes \<Rightarrow> string"
  MarshalIndent_FileKeys :: "FileKeys \<Rightarrow> error + bytes"
  MarshalIndent_FileStructure :: "FileStructure \<Rightarrow> error + bytes"

definition Sign :: "library \<Rightarrow> bytes \<Rightarrow> error + string" where
  "Sign lib data =
     (case Transform lib data of
        Inl err \<Rightarrow> Inl (''failed to canonicalize JSON: '' @ err)
      | Inr canonical \<Rightarrow>
          (case SignPKCS1v15 lib (Sum512 lib canonical) of
             Inl err \<Rightarrow> Inl (''failed to sign JSON: '' @ err)
           | Inr signature \<Rightarrow> Inr (EncodeToString lib signature)))"

text \<open>
  \<open>SignedKeys\<close> returns \<open>(nil, nil)\<close> (here \<open>Inr None\<close>), \<open>(nil, err)\<close> (\<open>Inl err\<close>) or
  \<open>(out, nil)\<close> (\<open>Inr (Some out)\<close>).
\<close>

definition SignedKeys :: "library \<Rightarrow> string \<Rightarrow> DomainKey list \<Rightarrow> error + bytes option" where
  "SignedKeys lib file keys =
     (if length keys < 1 then Inr None
      else
        let payload = \<lparr>Keys = sort_Slice (\<lambda>a b. Expire a < Expire b) keys\<rparr> in
        case MarshalIndent_FileKeys lib payload of
          Inl err \<Rightarrow> Inl (''SignedKeys - failed to marshal keys to JSON: '' @ err)
        | Inr out \<Rightarrow>
            (case Sign lib out of
               Inl err \<Rightarrow> Inl (''SignedKeys - failed to sign data: '' @ err)
             | Inr sig \<Rightarrow>
                 (case MarshalIndent_FileStructure lib \<lparr>Payload = payload, Signature = sig\<rparr> of
                    Inl err \<Rightarrow>
                      Inl (''SignedKeys - failed to marshal signed payload to JSON: '' @ err)
                  | Inr res \<Rightarrow> Inr (Some res))))"

text \<open>A library whose calls all succeed, for evaluating the model on concrete inputs.\<close>

definition toy_library :: library where
  "toy_library =
     \<lparr>Transform = Inr, Sum512 = (\<lambda>b. b), SignPKCS1v15 = Inr, EncodeToString = (\<lambda>b. b),
      MarshalIndent_FileKeys = (\<lambda>p. Inr (concat (map Key (Keys p)))),
      MarshalIndent_FileStructure =
        (\<lambda>f. Inr (concat (map Key (Keys (Payload f))) @ ''/'' @ Signature f))\<rparr>"

definition rec_a :: DomainKey where
  "rec_a = \<lparr>AppID = [], Date = Some 5, DomainName = ''*.a.test'', Expire = 2000, File = ''f.json'',
     Fqdn = ''a.test'', Key = ''ka'', LastError = []\<rparr>"

definition rec_b :: DomainKey where
  "rec_b = \<lparr>AppID = [], Date = Some 7, DomainName = ''*.b.test'', Expire = 1000, File = ''f.json'',
     Fqdn = ''b.test'', Key = ''kb'', LastError = []\<rparr>"

section \<open>ManifestService: \<open>handleFileJSON\<close>\<close>

text \<open>
  What the handler leaves in the \<open>http.ResponseWriter\<close>: the status code, the
  \<open>Content-Type\<close> header and the body.  \<open>http.Error(w, msg, code)\<close> sets the content type to
  \<open>text/plain; charset=utf-8\<close>, writes the code and prints \<open>msg\<close> followed by a newline.
  Writing a body without \<open>WriteHeader\<close> answers 200.  The handler's initial three-second
  sleep has no effect on the response and is left out.
\<close>

record response =
  status :: nat
  content_type :: string
  body :: bytes

definition http_Error :: "string \<Rightarrow> nat \<Rightarrow> response" where
  "http_Error msg code =
     \<lparr>status = code, content_type = ''text/plain; charset=utf-8'', body = msg @ [CHR 0x0A]\<rparr>"

text \<open>
  The storage interface's \<open>GetByFile(file) ([]DomainKey, []byte, error)\<close>: the records, the
  raw bytes (\<open>None\<close> is the nil slice, \<open>Some []\<close> a slice of length zero that is not nil) and
  the error (\<open>None\<close> is nil).
\<close>

type_synonym getter = "string \<Rightarrow> DomainKey list \<times> bytes option \<times> error option"

definition handleFileJSON :: "library \<Rightarrow> getter \<Rightarrow> string \<Rightarrow> response" where
  "handleFileJSON lib GetByFile file =
     (if file = [] then http_Error ''file required'' 400
      else
        case GetByFile file of
          (keys, data, Some err) \<Rightarrow> http_Error err 500
        | (keys, data, None) \<Rightarrow>
            (case (if length keys > 1 then SignedKeys lib file keys else Inr data) of
               Inl err \<Rightarrow> http_Error err 500
             | Inr (Some d) \<Rightarrow> \<lparr>status = 200, content_type = ''application/json'', body = d\<rparr>
             | Inr None \<Rightarrow> http_Error (''file '' @ file @ '' not found'') 404))"

text \<open>Concrete backends for evaluating the handler.\<close>

definition single_record_backend :: getter where
  "single_record_backend file = ([rec_a], None, None)"

definition single_record_raw_backend :: getter where
  "single_record_raw_backend file = ([rec_a], Some ''{}'', None)"

definition empty_file_backend :: getter where
  "empty_file_backend file = ([], Some [], None)"

definition two_record_backend :: getter where
  "two_record_backend file = ([rec_a, rec_b], None, None)"

definition failing_backend :: getter where
  "failing_backend file = ([], None, Some ''failed to query keys from postgres'')"

definition missing_backend :: getter where
  "missing_backend file = ([], None, None)"

definition failing_signer_library :: library where
  "failing_signer_library =
     toy_library\<lparr>SignPKCS1v15 := (\<lambda>h. Inl ''crypto/rsa: message too long for RSA key size'')\<rparr>"

section \<open>Storage backend: memory\<close>

text \<open>
  A Go \<open>map[string]V\<close> is the list of its entries, keys distinct, in the order in which one
  \<open>range\<close> over it visits them; Go leaves that order open, so the results below are stated for
  every order.  Assigning \<open>m[k] = v\<close> is \<open>AList.update k v m\<close>.
\<close>

type_synonym 'v gomap = "(string \<times> 'v) list"

text \<open>
  The errors \<open>SaveKeys\<close> collects are kept as values: \<open>EmptyKeyError fqdn domain file\<close> is
  \<open>fmt.Errorf("empty key for fqdn=%q domain=%q file=%q", ...)\<close>, \<open>BackendError e\<close> an error of
  the backend's client.  \<open>SaveKeys\<close> returns \<open>None\<close> for nil and \<open>Some errs\<close> for
  \<open>fmt.Errorf("failed to save some keys: %v", errs)\<close>.
\<close>

datatype record_error = EmptyKeyError string string string | BackendError error

record memory_Storage =
  memory_appID :: string
  memory_keys :: "DomainKey gomap"

definition memory_SaveKeys_step ::
  "record_error list \<times> DomainKey gomap \<Rightarrow> string \<times> DomainKey
     \<Rightarrow> record_error list \<times> DomainKey gomap" where
  "memory_SaveKeys_step acc kv =
     (let key = snd kv in
      if Key key = [] then
        (fst acc @ [EmptyKeyError (Fqdn key) (DomainName key) (File key)], snd acc)
      else (fst acc, AList.update (Fqdn key) key (snd acc)))"

definition memory_SaveKeys ::
  "memory_Storage \<Rightarrow> DomainKey gomap \<Rightarrow> memory_Storage \<times> record_error list option" where
  "memory_SaveKeys s keys =
     (let r = foldl memory_SaveKeys_step ([], []) keys;
          errs = fst r; list = snd r;
          s' = s\<lparr>memory_keys := list\<rparr>
      in if length errs > 0 then (s', Some errs) else (s', None))"





definition rec_unprobed :: DomainKey where
  "rec_unprobed = \<lparr>AppID = [], Date = None, DomainName = ''*.c.test'', Expire = 0, File = ''f.json'',
     Fqdn = ''c.test'', Key = [], LastError = []\<rparr>"

definition empty_memory :: memory_Storage where
  "empty_memory = \<lparr>memory_appID = ''app'', memory_keys = []\<rparr>"



definition three_targets :: "DomainKey gomap" where
  "three_targets = [(''a.test'', rec_a), (''c.test'', rec_unprobed), (''b.test'', rec_b)]"


section \<open>Metrics: the collector\<close>

text \<open>
  The collector's two \<open>sync.Map\<close>s are lists of entries with distinct keys, like Go maps.
  The stored \<open>float64\<close> values are modelled by real numbers: the error counter is zero or a
  count of increments, which \<open>float64\<close> holds exactly far beyond any number of probe
  failures between two collections, and the expiry gauge is only stored and emitted.
\<close>

record Collector =
  errors :: "(string \<times> real) list"
  expires :: "((string \<times> string) \<times> real) list"

text \<open>\<open>sync.Map.LoadOrStore\<close>: the value present, or else the given one after storing it.\<close>

definition LoadOrStore :: "('k \<times> 'v) list \<Rightarrow> 'k \<Rightarrow> 'v \<Rightarrow> 'v \<times> ('k \<times> 'v) list" where
  "LoadOrStore m k v =
     (case map_of m k of Some actual \<Rightarrow> (actual, m) | None \<Rightarrow> (v, AList.update k v m))"

definition IncError :: "Collector \<Rightarrow> string \<Rightarrow> Collector" where
  "IncError c file =
     (let r = LoadOrStore (errors c) file 0 in
      c\<lparr>errors := AList.update file (fst r + 1) (snd r)\<rparr>)"

definition ClearError :: "Collector \<Rightarrow> string \<Rightarrow> Collector" where
  "ClearError c file = c\<lparr>errors := AList.update file 0 (errors c)\<rparr>"

definition SetExpire :: "Collector \<Rightarrow> string \<Rightarrow> string \<Rightarrow> real \<Rightarrow> Collector" where
  "SetExpire c key fqdn expire = c\<lparr>expires := AList.update (key, fqdn) expire (expires c)\<rparr>"

definition ClearExpire :: "Collector \<Rightarrow> string \<Rightarrow> string \<Rightarrow> Collector" where
  "ClearExpire c key fqdn = c\<lparr>expires := AList.delete (key, fqdn) (expires c)\<rparr>"

text \<open>
  A gauge sample sent to the channel: \<open>ssl_pinning_errors{file}\<close> or
  \<open>ssl_pinning_expire{key,fqdn}\<close> with its value.  \<open>Collect\<close> ranges over the error counters,
  sending each and then clearing it, and then over the expiry gauges.
\<close>

datatype sample = ssl_pinning_errors string real | ssl_pinning_expire string string real

definition Collect_errors_step :: "Collector \<times> sample list \<Rightarrow> string \<times> real \<Rightarrow> Collector \<times> sample list" where
  "Collect_errors_step acc kv =
     (ClearError (fst acc) (fst kv), snd acc @ [ssl_pinning_errors (fst kv) (snd kv)])"

definition Collect :: "Collector \<Rightarrow> Collector \<times> sample list" where
  "Collect c =
     (let r = foldl Collect_errors_step (c, []) (errors c) in
      (fst r, snd r @ map (\<lambda>kv. ssl_pinning_expire (fst (fst kv)) (snd (fst kv)) (snd kv))
                        (expires (fst r))))"

text \<open>
  The calls that reach a collector, and a run of them from a given state; every \<open>Collect\<close>
  contributes the list of samples it sent.
\<close>

datatype collector_call =
  CallIncError string | CallClearError string | CallSetExpire string string real
  | CallClearExpire string string | CallCollect

fun run_collector :: "Collector \<Rightarrow> collector_call list \<Rightarrow> Collector \<times> sample list list" where
  "run_collector c [] = (c, [])"
| "run_collector c (CallIncError f # cs) = run_collector (IncError c f) cs"
| "run_collector c (CallClearError f # cs) = run_collector (ClearError c f) cs"
| "run_collector c (CallSetExpire k f e # cs) = run_collector (SetExpire c k f e) cs"
| "run_collector c (CallClearExpire k f # cs) = run_collector (ClearExpire c k f) cs"
| "run_collector c (CallCollect # cs) =
     (let r = Collect c; rest = run_collector (fst r) cs in (fst rest, snd r # snd rest))"

text \<open>The value of the \<open>ssl_pinning_errors\<close> samples for a file in one collection.\<close>

fun errors_samples :: "string \<Rightarrow> sample list \<Rightarrow> real list" where
  "errors_samples f [] = []"
| "errors_samples f (ssl_pinning_errors g v # ss) =
     (if g = f then v # errors_samples f ss else errors_samples f ss)"
| "errors_samples f (ssl_pinning_expire k g v # ss) = errors_samples f ss"

definition new_Collector :: Collector where
  "new_Collector = \<lparr>errors = [], expires = []\<rparr>"

section \<open>The pinning engine: registry and worker (package keys)\<close>







text \<open>
  For stating what a collection emits: the number of \<open>IncError f\<close> calls in a run since the
  last call that resets the counter of \<open>f\<close> (a \<open>Collect\<close> or a \<open>ClearError f\<close>), the number
  since the last \<open>Collect\<close> alone, and whether the run has created the counter of \<open>f\<close>.
\<close>

definition increments_since_reset :: "string \<Rightarrow> collector_call list \<Rightarrow> nat" where
  "increments_since_reset f cs =
     length (filter (\<lambda>c. c = CallIncError f)
       (takeWhile (\<lambda>c. c \<noteq> CallCollect \<and> c \<noteq> CallClearError f) (rev cs)))"

definition increments_since_collect :: "string \<Rightarrow> collector_call list \<Rightarrow> nat" where
  "increments_since_collect f cs =
     length (filter (\<lambda>c. c = CallIncError f) (takeWhile (\<lambda>c. c \<noteq> CallCollect) (rev cs)))"

definition counter_created :: "string \<Rightarrow> collector_call list \<Rightarrow> bool" where
  "counter_created f cs \<longleftrightarrow> CallIncError f \<in> set cs \<or> CallClearError f \<in> set cs"

text \<open>One call applied to the collector, keeping only the state.\<close>

definition collector_step :: "Collector \<Rightarrow> collector_call \<Rightarrow> Collector" where
  "collector_step c call =
     (case call of
        CallIncError f \<Rightarrow> IncError c f
      | CallClearError f \<Rightarrow> ClearError c f
      | CallSetExpire k f e \<Rightarrow> SetExpire c k f e
      | CallClearExpire k f \<Rightarrow> ClearExpire c k f
      | CallCollect \<Rightarrow> fst (Collect c))"

section \<open>Storage backend: filesystem, the readiness probe\<close>

text \<open>
  \<open>t.Sub(u)\<close> is the duration \<open>t - u\<close> in nanoseconds, saturated at the largest and smallest
  \<open>int64\<close>.  \<open>maxAge\<close> is ten seconds.
\<close>

definition time_Sub :: "time \<Rightarrow> time \<Rightarrow> int" where
  "time_Sub t u = max (- (2 ^ 63)) (min (2 ^ 63 - 1) (t - u))"

definition maxAge :: int where
  "maxAge = 10 * 1000000000"

text \<open>
  What the probe reads from the operating system: \<open>os.ReadDir(dumpDir)\<close> returns an error or
  the directory's entries, and \<open>Info()\<close> of an entry returns an error or the file information,
  of which only \<open>ModTime()\<close> is used.  A probe answers with a status code and, when it is 503,
  a body made of its diagnostic lines joined by newlines; the lines are kept as values.
\<close>

record DirEntry =
  entry_Name :: string
  entry_Info :: "error + time"

datatype diagnostic =
  failed_to_read_dump_dir string error
  | no_dump_files_found
  | failed_to_get_file_info string error
  | no_dump_files_newer_than_maxAge

record probe_response =
  probe_status :: nat
  probe_lines :: "diagnostic list"

fun readiness_entries :: "time \<Rightarrow> DirEntry list \<Rightarrow> diagnostic list \<Rightarrow> diagnostic list" where
  "readiness_entries now [] errs = errs"
| "readiness_entries now (e # entries) errs =
     (case entry_Info e of
        Inl err \<Rightarrow> readiness_entries now entries (errs @ [failed_to_get_file_info (entry_Name e) err])
      | Inr modTime \<Rightarrow>
          if time_Sub now modTime \<ge> maxAge
          then readiness_entries now entries (errs @ [no_dump_files_newer_than_maxAge])
          else readiness_entries now entries errs)"

definition filesystem_ProbeReadiness ::
  "string \<Rightarrow> error + DirEntry list \<Rightarrow> time \<Rightarrow> probe_response" where
  "filesystem_ProbeReadiness dumpDir ReadDir now =
     (let errs =
        (case ReadDir of
           Inl err \<Rightarrow> [failed_to_read_dump_dir dumpDir err]
         | Inr entries \<Rightarrow>
             if length entries = 0 then [no_dump_files_found]
             else readiness_entries now entries [])
      in if length errs > 0 then \<lparr>probe_status = 503, probe_lines = errs\<rparr>
         else \<lparr>probe_status = 200, probe_lines = []\<rparr>)"

text \<open>Whether every entry's information can be read and is younger, or not younger, than \<open>maxAge\<close>.\<close>

definition all_fresh :: "time \<Rightarrow> DirEntry list \<Rightarrow> bool" where
  "all_fresh now entries \<longleftrightarrow>
     list_all (\<lambda>e. case entry_Info e of Inl err \<Rightarrow> False | Inr m \<Rightarrow> time_Sub now m < maxAge) entries"

definition all_stale :: "time \<Rightarrow> DirEntry list \<Rightarrow> bool" where
  "all_stale now entries \<longleftrightarrow>
     list_all (\<lambda>e. case entry_Info e of Inl err \<Rightarrow> False | Inr m \<Rightarrow> time_Sub now m \<ge> maxAge) entries"

definition old_manifest :: DirEntry where
  "old_manifest = \<lparr>entry_Name = ''a.json'', entry_Info = Inr 0\<rparr>"

definition new_manifest :: DirEntry where
  "new_manifest = \<lparr>entry_Name = ''b.json'', entry_Info = Inr 19000000000\<rparr>"

section \<open>Storage backend: Redis\<close>

text \<open>
  \<open>strconv.ParseUint(s, 10, 64)\<close> reads the digits from the left and stops at the first
  character that is not a decimal digit (a syntax error, value zero) or at the first digit
  that takes the number past the largest \<open>uint64\<close> (a range error, value \<open>2^64 - 1\<close>).
  \<open>strconv.ParseInt(s, 10, 64)\<close> takes off a sign, returns zero on a syntax error and the
  nearest \<open>int64\<close> on a range error.  \<open>GetByFile\<close> discards the error, so \<open>ParseInt\<close> is the
  number returned.  \<open>FormatInt\<close> is the decimal text the client writes for an \<open>int64\<close>.
\<close>

datatype num_error = ErrSyntax | ErrRange

definition is_digit :: "char \<Rightarrow> bool" where
  "is_digit c \<longleftrightarrow> 48 \<le> (of_char c :: nat) \<and> (of_char c :: nat) \<le> 57"

definition digit_value :: "char \<Rightarrow> int" where
  "digit_value c = int (of_char c) - 48"

fun ParseUint_loop :: "int \<Rightarrow> string \<Rightarrow> int \<times> num_error option" where
  "ParseUint_loop n [] = (n, None)"
| "ParseUint_loop n (c # cs) =
     (if \<not> is_digit c then (0, Some ErrSyntax)
      else if n \<ge> (2 ^ 64 - 1) div 10 + 1 then (2 ^ 64 - 1, Some ErrRange)
      else
        let n1 = n * 10 + digit_value c in
        if n1 > 2 ^ 64 - 1 then (2 ^ 64 - 1, Some ErrRange) else ParseUint_loop n1 cs)"

definition ParseUint :: "string \<Rightarrow> int \<times> num_error option" where
  "ParseUint s = (if s = [] then (0, Some ErrSyntax) else ParseUint_loop 0 s)"

definition ParseInt :: "string \<Rightarrow> int" where
  "ParseInt s =
     (if s = [] then 0
      else
        let neg = (hd s = CHR ''-'');
            r = ParseUint (if hd s = CHR ''+'' \<or> hd s = CHR ''-'' then tl s else s);
            un = fst r
        in if snd r = Some ErrSyntax then 0
           else if \<not> neg \<and> un \<ge> 2 ^ 63 then 2 ^ 63 - 1
           else if neg \<and> un > 2 ^ 63 then - (2 ^ 63)
           else if neg then - un else un)"

fun FormatUint :: "nat \<Rightarrow> string" where
  "FormatUint n =
     (if n < 10 then [''0123456789'' ! n]
      else FormatUint (n div 10) @ [''0123456789'' ! (n mod 10)])"

definition FormatInt :: "int \<Rightarrow> string" where
  "FormatInt i = (if i < 0 then CHR ''-'' # FormatUint (nat (- i)) else FormatUint (nat i))"

text \<open>
  What the backend gets from outside the repository.  The server holds hashes, a list of
  entries from a key to the hash's fields; \<open>KEYS pattern\<close> lists, in the server's order, the
  keys that its glob matcher accepts; \<open>HSET\<close> sets the given fields of a hash and keeps the
  others.  A command can fail: \<open>HSet_error\<close> gives the error of an \<open>HSET\<close> on a key, if any,
  \<open>Keys_error\<close> that of \<open>KEYS\<close> and \<open>Exec_error\<close> that of the pipeline of \<open>HGETALL\<close>s (the
  pipeline returns the error of its first failed command, so when it succeeds every
  \<open>HGETALL\<close> has a result; for a key that holds no hash the result has no fields).  The
  client formats a time as RFC 3339 with nanoseconds and \<open>time.Parse\<close> reads it back, giving
  the zero time for a text it cannot parse.
\<close>

type_synonym fields = "(string \<times> string) list"

record redis_Storage =
  redis_appID :: string
  redis_hashes :: "(string \<times> fields) list"
  glob_match :: "string \<Rightarrow> string \<Rightarrow> bool"
  HSet_error :: "string \<Rightarrow> error option"
  Keys_error :: "error option"
  Exec_error :: "error option"
  format_RFC3339Nano :: "time option \<Rightarrow> string"
  parse_RFC3339Nano :: "string \<Rightarrow> time"

definition HSet :: "(string \<times> fields) list \<Rightarrow> string \<Rightarrow> fields \<Rightarrow> (string \<times> fields) list" where
  "HSet hashes hash values =
     AList.update hash
       (foldl (\<lambda>h fv. AList.update (fst fv) (snd fv) h)
          (case map_of hashes hash of None \<Rightarrow> [] | Some h \<Rightarrow> h) values)
       hashes"



text \<open>The composite key \<open>file:fqdn:appID\<close> under which a record is written.\<close>

definition redis_hash :: "redis_Storage \<Rightarrow> DomainKey \<Rightarrow> string" where
  "redis_hash s key = File key @ '':'' @ Fqdn key @ '':'' @ redis_appID s"

definition redis_SaveKeys_step ::
  "redis_Storage \<times> record_error list \<Rightarrow> string \<times> DomainKey \<Rightarrow> redis_Storage \<times> record_error list" where
  "redis_SaveKeys_step acc kv =
     (let s = fst acc; errs = snd acc; key = snd kv in
      if Key key = [] then (s, errs)
      else
        let hash = redis_hash s key in
        case HSet_error s hash of
          Some err \<Rightarrow> (s, errs @ [BackendError err])
        | None \<Rightarrow>
            (s\<lparr>redis_hashes :=
                 HSet (redis_hashes s) hash
                   [(''date'', format_RFC3339Nano s (Date key)),
                    (''domainName'', DomainName key),
                    (''expire'', FormatInt (Expire key)),
                    (''file'', File key),
                    (''fqdn'', Fqdn key),
                    (''key'', Key key),
                    (''last_error'', LastError key)]\<rparr>,
             errs))"

definition redis_SaveKeys ::
  "redis_Storage \<Rightarrow> DomainKey gomap \<Rightarrow> redis_Storage \<times> record_error list option" where
  "redis_SaveKeys s keys =
     (let r = foldl redis_SaveKeys_step (s, []) keys in
      if length (snd r) > 0 then (fst r, Some (snd r)) else (fst r, None))"





text \<open>A reachable server holding nothing, with a matcher for patterns that end in their only \<open>*\<close>.\<close>

definition prefix_match :: "string \<Rightarrow> string \<Rightarrow> bool" where
  "prefix_match pattern k \<longleftrightarrow> take (length pattern - 1) k = butlast pattern"

definition empty_redis :: redis_Storage where
  "empty_redis =
     \<lparr>redis_appID = ''app'', redis_hashes = [], glob_match = prefix_match,
      HSet_error = (\<lambda>h. None), Keys_error = None, Exec_error = None,
      format_RFC3339Nano = (\<lambda>t. case t of None \<Rightarrow> [] | Some n \<Rightarrow> FormatInt n),
      parse_RFC3339Nano = ParseInt\<rparr>"

section \<open>Storage backend: PostgreSQL\<close>









section \<open>Choosing the record with the least expire\<close>









section \<open>Properties of \<open>sort.Slice\<close>\<close>

lemma mset_insert_back: "mset (insert_back lt x ps) = add_mset x (mset ps)"
  by (induction ps) auto

lemma set_insert_back: "set (insert_back lt x ps) = insert x (set ps)"
  by (induction ps) auto

lemma sorted_insert_back:
  fixes f :: "'a \<Rightarrow> int"
  assumes "sorted_wrt (\<lambda>a b. f b \<le> f a) ps"
  shows "sorted_wrt (\<lambda>a b. f b \<le> f a) (insert_back (\<lambda>a b. f a < f b) x ps)"
  using assms
proof (induction ps)
  case Nil
  then show ?case by simp
next
  case (Cons p ps)
  show ?case
  proof (cases "f x < f p")
    case True
    have "\<forall>y\<in>set (insert_back (\<lambda>a b. f a < f b) x ps). f y \<le> f p"
      using Cons.prems True by (auto simp: set_insert_back)
    moreover have "sorted_wrt (\<lambda>a b. f b \<le> f a) (insert_back (\<lambda>a b. f a < f b) x ps)"
      using Cons by simp
    ultimately show ?thesis using True by simp
  next
    case False
    then show ?thesis using Cons.prems by auto
  qed
qed

lemma foldl_insert_back_mset:
  "mset (foldl (\<lambda>acc x. insert_back lt x acc) acc xs) = mset acc + mset xs"
  by (induction xs arbitrary: acc) (simp_all add: mset_insert_back)

lemma foldl_insert_back_sorted:
  fixes f :: "'a \<Rightarrow> int"
  shows "sorted_wrt (\<lambda>a b. f b \<le> f a) acc \<Longrightarrow>
    sorted_wrt (\<lambda>a b. f b \<le> f a) (foldl (\<lambda>acc x. insert_back (\<lambda>a b. f a < f b) x acc) acc xs)"
  by (induction xs arbitrary: acc) (simp_all add: sorted_insert_back)

lemma mset_sort_Slice: "mset (sort_Slice lt xs) = mset xs"
  by (simp add: sort_Slice_def foldl_insert_back_mset)

lemma sorted_sort_Slice:
  fixes f :: "'a \<Rightarrow> int"
  shows "sorted_wrt (\<lambda>a b. f a \<le> f b) (sort_Slice (\<lambda>a b. f a < f b) xs)"
proof -
  have "sorted_wrt (\<lambda>a b. f b \<le> f a) (foldl (\<lambda>acc x. insert_back (\<lambda>a b. f a < f b) x acc) [] xs)"
    by (rule foldl_insert_back_sorted) simp
  then show ?thesis
    by (simp add: sort_Slice_def sorted_wrt_rev)
qed

section \<open>\<open>SignedKeys\<close>: the emitted manifest\<close>

lemma SignedKeys_not_nil: "keys \<noteq> [] \<Longrightarrow> SignedKeys lib file keys \<noteq> Inr None"
  by (cases keys) (auto simp: SignedKeys_def Let_def split: sum.splits)

text \<open>
  Claim C2.  \<open>SignedKeys\<close> on an empty list returns no payload and no error; on a non-empty
  list it never returns "no payload".  Whenever it returns bytes, they are the marshalled
  \<open>FileStructure\<close> whose \<open>payload.keys\<close> is a rearrangement of exactly the input records in
  non-decreasing order of \<open>expire\<close>, signed by the signer over the marshalled payload.  And
  it does return bytes whenever marshalling and signing succeed.
\<close>

theorem SignedKeys_sorted_by_expire:
  "SignedKeys lib file [] = Inr None \<and>
   (keys \<noteq> [] \<longrightarrow> SignedKeys lib file keys \<noteq> Inr None) \<and>
   (\<forall>out. SignedKeys lib file keys = Inr (Some out) \<longrightarrow>
      (\<exists>ks b sig.
         MarshalIndent_FileKeys lib \<lparr>Keys = ks\<rparr> = Inr b \<and> Sign lib b = Inr sig \<and>
         MarshalIndent_FileStructure lib \<lparr>Payload = \<lparr>Keys = ks\<rparr>, Signature = sig\<rparr> = Inr out \<and>
         mset ks = mset keys \<and> sorted_wrt (\<lambda>a b. Expire a \<le> Expire b) ks)) \<and>
   (\<forall>ks b sig out.
      keys \<noteq> [] \<and> ks = sort_Slice (\<lambda>a b. Expire a < Expire b) keys \<and>
      MarshalIndent_FileKeys lib \<lparr>Keys = ks\<rparr> = Inr b \<and> Sign lib b = Inr sig \<and>
      MarshalIndent_FileStructure lib \<lparr>Payload = \<lparr>Keys = ks\<rparr>, Signature = sig\<rparr> = Inr out \<longrightarrow>
      SignedKeys lib file keys = Inr (Some out))"
proof (intro conjI allI impI)
  show "SignedKeys lib file [] = Inr None"
    by (simp add: SignedKeys_def)
next
  assume "keys \<noteq> []"
  then show "SignedKeys lib file keys \<noteq> Inr None"
    by (rule SignedKeys_not_nil)
next
  fix out
  assume ret: "SignedKeys lib file keys = Inr (Some out)"
  let ?ks = "sort_Slice (\<lambda>a b. Expire a < Expire b) keys"
  from ret obtain b sig where
    "MarshalIndent_FileKeys lib \<lparr>Keys = ?ks\<rparr> = Inr b" "Sign lib b = Inr sig"
    "MarshalIndent_FileStructure lib \<lparr>Payload = \<lparr>Keys = ?ks\<rparr>, Signature = sig\<rparr> = Inr out"
    by (auto simp: SignedKeys_def Let_def split: if_splits sum.splits)
  moreover have "mset ?ks = mset keys"
    by (rule mset_sort_Slice)
  moreover have "sorted_wrt (\<lambda>a b. Expire a \<le> Expire b) ?ks"
    by (rule sorted_sort_Slice)
  ultimately show "\<exists>ks b sig.
         MarshalIndent_FileKeys lib \<lparr>Keys = ks\<rparr> = Inr b \<and> Sign lib b = Inr sig \<and>
         MarshalIndent_FileStructure lib \<lparr>Payload = \<lparr>Keys = ks\<rparr>, Signature = sig\<rparr> = Inr out \<and>
         mset ks = mset keys \<and> sorted_wrt (\<lambda>a b. Expire a \<le> Expire b) ks"
    by blast
next
  fix ks b sig out
  assume "keys \<noteq> [] \<and> ks = sort_Slice (\<lambda>a b. Expire a < Expire b) keys \<and>
      MarshalIndent_FileKeys lib \<lparr>Keys = ks\<rparr> = Inr b \<and> Sign lib b = Inr sig \<and>
      MarshalIndent_FileStructure lib \<lparr>Payload = \<lparr>Keys = ks\<rparr>, Signature = sig\<rparr> = Inr out"
  then show "SignedKeys lib file keys = Inr (Some out)"
    by (cases keys) (auto simp: SignedKeys_def Let_def)
qed

theorem SignedKeys_sorted_by_expire_witness:
  "[rec_a, rec_b] \<noteq> [] \<and>
   SignedKeys toy_library ''f.json'' [rec_a, rec_b] = Inr (Some ''kbka/kbka'') \<and>
   (\<exists>ks b sig.
      MarshalIndent_FileKeys toy_library \<lparr>Keys = ks\<rparr> = Inr b \<and> Sign toy_library b = Inr sig \<and>
      MarshalIndent_FileStructure toy_library \<lparr>Payload = \<lparr>Keys = ks\<rparr>, Signature = sig\<rparr>
        = Inr ''kbka/kbka'' \<and>
      mset ks = mset [rec_a, rec_b] \<and> sorted_wrt (\<lambda>a b. Expire a \<le> Expire b) ks)"
proof -
  have r: "SignedKeys toy_library ''f.json'' [rec_a, rec_b] = Inr (Some ''kbka/kbka'')"
    by (simp add: SignedKeys_def sort_Slice_def Sign_def toy_library_def rec_a_def rec_b_def)
  show ?thesis
    using r SignedKeys_sorted_by_expire [of toy_library "''f.json''" "[rec_a, rec_b]"]
    by simp
qed

section \<open>\<open>handleFileJSON\<close>: the responses of \<open>GET /api/v1/{file}\<close>\<close>

text \<open>
  Claim C3, as stated, fails: the handler signs only when the backend returned more than one
  record.  With exactly one record and no raw bytes nothing is assembled and the answer is
  404, not a signed single-record manifest.
\<close>

theorem single_record_counterexample:
  "single_record_backend ''f.json'' = ([rec_a], None, None) \<and>
   handleFileJSON toy_library single_record_backend ''f.json'' =
     \<lparr>status = 404, content_type = ''text/plain; charset=utf-8'',
      body = ''file f.json not found'' @ [CHR 0x0A]\<rparr> \<and>
   status (handleFileJSON toy_library single_record_backend ''f.json'') \<noteq> 200"
  by (simp add: handleFileJSON_def single_record_backend_def http_Error_def)

text \<open>
  Claim C3, amended.  For every request with a non-empty \<open>{file}\<close> for which the backend
  returns exactly one record and no error: if the backend also supplied raw bytes the answer
  is 200 \<open>application/json\<close> with those bytes; otherwise it is 404 \<open>file {file} not found\<close>.
\<close>

theorem single_record_response:
  "file \<noteq> [] \<and> GetByFile file = ([key], data, None) \<longrightarrow>
   handleFileJSON lib GetByFile file =
     (case data of
        Some raw \<Rightarrow> \<lparr>status = 200, content_type = ''application/json'', body = raw\<rparr>
      | None \<Rightarrow> http_Error (''file '' @ file @ '' not found'') 404)"
  by (simp add: handleFileJSON_def split: option.splits)

theorem single_record_response_witness:
  "''f.json'' \<noteq> [] \<and> single_record_raw_backend ''f.json'' = ([rec_a], Some ''{}'', None) \<and>
   handleFileJSON toy_library single_record_raw_backend ''f.json'' =
     \<lparr>status = 200, content_type = ''application/json'', body = ''{}''\<rparr> \<and>
   single_record_backend ''f.json'' = ([rec_a], None, None) \<and>
   handleFileJSON toy_library single_record_backend ''f.json'' =
     http_Error ''file f.json not found'' 404"
  using single_record_response [of "''f.json''" single_record_raw_backend rec_a "Some ''{}''" toy_library]
    single_record_response [of "''f.json''" single_record_backend rec_a None toy_library]
  by (simp add: single_record_raw_backend_def single_record_backend_def)

text \<open>
  Claim C6, as stated, fails in two places.  The handler tests \<open>data != nil\<close>, not that the
  data is non-empty: raw bytes of length zero (an empty file read by the filesystem backend)
  are answered with 200 and an empty body, not 404.  And when the backend succeeds with more
  than one record but signing fails, the answer is 500 with the signing error, a case the
  claim's list sends to 404.
\<close>

theorem handleFileJSON_counterexample:
  "''e.json'' \<noteq> [] \<and> empty_file_backend ''e.json'' = ([], Some [], None) \<and>
   handleFileJSON toy_library empty_file_backend ''e.json'' =
     \<lparr>status = 200, content_type = ''application/json'', body = []\<rparr> \<and>
   two_record_backend ''f.json'' = ([rec_a, rec_b], None, None) \<and>
   handleFileJSON failing_signer_library two_record_backend ''f.json'' =
     http_Error ''SignedKeys - failed to sign data: failed to sign JSON: crypto/rsa: message too long for RSA key size'' 500"
  by (simp add: handleFileJSON_def empty_file_backend_def two_record_backend_def
      failing_signer_library_def toy_library_def SignedKeys_def Sign_def sort_Slice_def
      rec_a_def rec_b_def)

text \<open>
  Claim C6, amended.  An empty \<open>{file}\<close> is answered 400 \<open>file required\<close>; a backend error 500
  with its message; with more than one record, a signing failure 500 with its message and a
  signed manifest 200 \<open>application/json\<close> (signing more than one record never yields "no
  payload"); with at most one record, raw bytes that are not nil, of whatever length, 200
  \<open>application/json\<close>, and nil raw bytes 404 \<open>file {file} not found\<close>.  Error answers are
  \<open>text/plain\<close>, the message followed by a newline.
\<close>

theorem handleFileJSON_responses:
  "(file = [] \<longrightarrow> handleFileJSON lib GetByFile file = http_Error ''file required'' 400) \<and>
   (file \<noteq> [] \<and> GetByFile file = (keys, data, Some err) \<longrightarrow>
      handleFileJSON lib GetByFile file = http_Error err 500) \<and>
   (file \<noteq> [] \<and> GetByFile file = (keys, data, None) \<and> length keys > 1 \<and>
    SignedKeys lib file keys = Inl err \<longrightarrow>
      handleFileJSON lib GetByFile file = http_Error err 500) \<and>
   (file \<noteq> [] \<and> GetByFile file = (keys, data, None) \<and> length keys > 1 \<and>
    SignedKeys lib file keys = Inr (Some signed) \<longrightarrow>
      handleFileJSON lib GetByFile file =
        \<lparr>status = 200, content_type = ''application/json'', body = signed\<rparr>) \<and>
   (length keys > 1 \<longrightarrow> SignedKeys lib file keys \<noteq> Inr None) \<and>
   (file \<noteq> [] \<and> GetByFile file = (keys, Some raw, None) \<and> length keys \<le> 1 \<longrightarrow>
      handleFileJSON lib GetByFile file =
        \<lparr>status = 200, content_type = ''application/json'', body = raw\<rparr>) \<and>
   (file \<noteq> [] \<and> GetByFile file = (keys, None, None) \<and> length keys \<le> 1 \<longrightarrow>
      handleFileJSON lib GetByFile file = http_Error (''file '' @ file @ '' not found'') 404)"
proof (intro conjI impI)
  assume "1 < length keys"
  then have "keys \<noteq> []" by auto
  then show "SignedKeys lib file keys \<noteq> Inr None" by (rule SignedKeys_not_nil)
qed (auto simp: handleFileJSON_def)

theorem handleFileJSON_responses_witness:
  "handleFileJSON toy_library missing_backend [] = http_Error ''file required'' 400 \<and>
   handleFileJSON toy_library failing_backend ''f.json'' =
     http_Error ''failed to query keys from postgres'' 500 \<and>
   handleFileJSON failing_signer_library two_record_backend ''f.json'' =
     http_Error ''SignedKeys - failed to sign data: failed to sign JSON: crypto/rsa: message too long for RSA key size'' 500 \<and>
   handleFileJSON toy_library two_record_backend ''f.json'' =
     \<lparr>status = 200, content_type = ''application/json'', body = ''kbka/kbka''\<rparr> \<and>
   handleFileJSON toy_library single_record_raw_backend ''f.json'' =
     \<lparr>status = 200, content_type = ''application/json'', body = ''{}''\<rparr> \<and>
   handleFileJSON toy_library missing_backend ''anything.json'' =
     http_Error ''file anything.json not found'' 404"
proof -
  have s1: "SignedKeys failing_signer_library ''f.json'' [rec_a, rec_b] =
      Inl ''SignedKeys - failed to sign data: failed to sign JSON: crypto/rsa: message too long for RSA key size''"
    by (simp add: failing_signer_library_def toy_library_def SignedKeys_def Sign_def sort_Slice_def
        rec_a_def rec_b_def)
  have s2: "SignedKeys toy_library ''f.json'' [rec_a, rec_b] = Inr (Some ''kbka/kbka'')"
    by (simp add: toy_library_def SignedKeys_def Sign_def sort_Slice_def rec_a_def rec_b_def)
  show ?thesis
    using handleFileJSON_responses [of "[]" toy_library missing_backend]
      handleFileJSON_responses [of "''f.json''" toy_library failing_backend "[]" None
        "''failed to query keys from postgres''"]
      handleFileJSON_responses [of "''f.json''" failing_signer_library two_record_backend
        "[rec_a, rec_b]" None
        "''SignedKeys - failed to sign data: failed to sign JSON: crypto/rsa: message too long for RSA key size''"]
      handleFileJSON_responses [of "''f.json''" toy_library two_record_backend
        "[rec_a, rec_b]" None _ "''kbka/kbka''"]
      handleFileJSON_responses [of "''f.json''" toy_library single_record_raw_backend
        "[rec_a]" None _ _ "''{}''"]
      handleFileJSON_responses [of "''anything.json''" toy_library missing_backend "[]"]
      s1 s2
    by (simp add: missing_backend_def failing_backend_def two_record_backend_def
        single_record_raw_backend_def)
qed

section \<open>Memory backend: \<open>SaveKeys\<close> and \<open>GetByFile\<close>\<close>

lemma SaveKeys_fold_errs:
  "fst (foldl memory_SaveKeys_step (errs, list) keys) = [] \<longleftrightarrow>
     errs = [] \<and> (\<forall>r \<in> snd ` set keys. Key r \<noteq> [])"
  by (induction keys arbitrary: errs list) (auto simp: memory_SaveKeys_step_def Let_def)












section \<open>The collector's counters\<close>

lemma map_of_IncError:
  "map_of (errors (IncError c g)) f =
     (if g = f then Some ((case map_of (errors c) f of None \<Rightarrow> 0 | Some v \<Rightarrow> v) + 1)
      else map_of (errors c) f)"
  by (auto simp: IncError_def LoadOrStore_def Let_def update_conv' split: option.splits)

lemma map_of_ClearError:
  "map_of (errors (ClearError c g)) f = (if g = f then Some 0 else map_of (errors c) f)"
  by (simp add: ClearError_def update_conv')


section \<open>The worker's tick\<close>



section \<open>Collections over a run of the collector\<close>

lemma Collect_fold_samples:
  "snd (foldl Collect_errors_step (c, out) es) =
     out @ map (\<lambda>kv. ssl_pinning_errors (fst kv) (snd kv)) es"
  by (induction es arbitrary: c out) (simp_all add: Collect_errors_step_def)

lemma Collect_fold_errors:
  "map_of (errors (fst (foldl Collect_errors_step (c, out) es))) f =
     (if f \<in> fst ` set es then Some 0 else map_of (errors c) f)"
  by (induction es arbitrary: c out) (auto simp: Collect_errors_step_def map_of_ClearError)

lemma Collect_fold_distinct:
  "distinct (map fst (errors c)) \<Longrightarrow>
   distinct (map fst (errors (fst (foldl Collect_errors_step (c, out) es))))"
  by (induction es arbitrary: c out)
     (simp_all add: Collect_errors_step_def ClearError_def distinct_update)

lemma errors_samples_append:
  "errors_samples f (xs @ ys) = errors_samples f xs @ errors_samples f ys"
  by (induction f xs rule: errors_samples.induct) simp_all

lemma errors_samples_expire:
  "errors_samples f (map (\<lambda>kv. ssl_pinning_expire (fst (fst kv)) (snd (fst kv)) (snd kv)) xs) = []"
  by (induction xs) simp_all

lemma errors_samples_errors:
  "distinct (map fst es) \<Longrightarrow>
   errors_samples f (map (\<lambda>kv. ssl_pinning_errors (fst kv) (snd kv)) es) =
     (case map_of es f of None \<Rightarrow> [] | Some v \<Rightarrow> [v])"
proof (induction es)
  case Nil
  then show ?case by simp
next
  case (Cons kv es)
  obtain k v where kv: "kv = (k, v)" by (cases kv)
  show ?case
  proof (cases "k = f")
    case True
    then have "f \<notin> fst ` set es" using Cons.prems kv by auto
    then have "map_of es f = None" by (simp add: map_of_eq_None_iff)
    with Cons True kv show ?thesis by simp
  next
    case False
    with Cons kv show ?thesis by simp
  qed
qed

lemma Collect_samples:
  "distinct (map fst (errors c)) \<Longrightarrow>
   errors_samples f (snd (Collect c)) = (case map_of (errors c) f of None \<Rightarrow> [] | Some v \<Rightarrow> [v])"
  by (simp add: Collect_def Let_def Collect_fold_samples errors_samples_append
      errors_samples_expire errors_samples_errors)

lemma map_of_Collect:
  "map_of (errors (fst (Collect c))) f = map_option (\<lambda>v. 0) (map_of (errors c) f)"
proof -
  have "f \<in> fst ` set (errors c) \<longleftrightarrow> map_of (errors c) f \<noteq> None"
    by (simp add: map_of_eq_None_iff)
  then show ?thesis
    by (cases "map_of (errors c) f") (auto simp: Collect_def Let_def Collect_fold_errors)
qed

lemma distinct_collector_step:
  "distinct (map fst (errors c)) \<Longrightarrow> distinct (map fst (errors (collector_step c call)))"
  by (cases call)
     (simp_all add: collector_step_def IncError_def LoadOrStore_def Let_def ClearError_def
        SetExpire_def ClearExpire_def Collect_def distinct_update Collect_fold_distinct
        split: option.splits)

lemma map_of_collector_step:
  "map_of (errors (collector_step c call)) f =
     (if call = CallIncError f then
        Some ((case map_of (errors c) f of None \<Rightarrow> 0 | Some v \<Rightarrow> v) + 1)
      else if call = CallClearError f then Some 0
      else if call = CallCollect then map_option (\<lambda>v. 0) (map_of (errors c) f)
      else map_of (errors c) f)"
  by (cases call)
     (auto simp: collector_step_def map_of_IncError map_of_ClearError map_of_Collect
        SetExpire_def ClearExpire_def)

lemma run_collector_append:
  "run_collector c (xs @ ys) =
     (fst (run_collector (fst (run_collector c xs)) ys),
      snd (run_collector c xs) @ snd (run_collector (fst (run_collector c xs)) ys))"
  by (induction c xs rule: run_collector.induct) (simp_all add: Let_def)

lemma run_collector_snoc:
  "fst (run_collector c (cs @ [call])) = collector_step (fst (run_collector c cs)) call"
  by (cases call) (simp_all add: run_collector_append collector_step_def Let_def)

lemma distinct_run_collector:
  "distinct (map fst (errors c)) \<Longrightarrow> distinct (map fst (errors (fst (run_collector c cs))))"
  by (induction cs rule: rev_induct) (simp_all add: run_collector_snoc distinct_collector_step)

lemma counter_after_run:
  "map_of (errors (fst (run_collector new_Collector cs))) f =
     (if counter_created f cs then Some (real (increments_since_reset f cs)) else None)"
proof (induction cs rule: rev_induct)
  case Nil
  then show ?case
    by (simp add: new_Collector_def counter_created_def)
next
  case (snoc call cs)
  show ?case
    unfolding run_collector_snoc map_of_collector_step snoc.IH
    by (cases call)
       (auto simp: counter_created_def increments_since_reset_def filter_empty_conv
          dest: set_takeWhileD)
qed

text \<open>
  Claim C10, as stated, fails in its last part: after one \<open>IncError\<close> and a \<open>ClearError\<close> for
  the same file (the worker calls \<open>ClearError\<close> when it starts) the next collection emits
  zero, although one increment happened since the previous collection.
\<close>

theorem Collect_count_counterexample:
  "errors_samples ''f.json''
     (snd (Collect (fst (run_collector new_Collector [CallIncError ''f.json'', CallClearError ''f.json'']))))
     = [0] \<and>
   increments_since_collect ''f.json'' [CallIncError ''f.json'', CallClearError ''f.json''] = 1"
  by (simp add: new_Collector_def IncError_def LoadOrStore_def ClearError_def Collect_def
      Collect_errors_step_def increments_since_collect_def)

text \<open>
  Claim C10, amended.  For a collector as \<open>NewCollector\<close> creates it and every run of calls:
  a collection that follows the run emits exactly one \<open>ssl_pinning_errors\<close> sample for a file
  once the run contains an \<open>IncError\<close> (or \<open>ClearError\<close>) for that file, and none before; no later
  call removes the sample again, whatever follows.  The value emitted is the number of
  \<open>IncError\<close> calls for the file since its counter was last reset, by the previous collection
  or by a \<open>ClearError\<close> for the file; it is the number since the previous collection when no
  \<open>ClearError\<close> for the file came in between.  Every collection inside a run is the
  collection that follows the calls before it.
\<close>

theorem Collect_errors_samples:
  "errors_samples f (snd (Collect (fst (run_collector new_Collector cs)))) =
     (if counter_created f cs then [real (increments_since_reset f cs)] else []) \<and>
   (counter_created f cs \<longrightarrow> counter_created f (cs @ cs')) \<and>
   (CallIncError f \<in> set cs \<longrightarrow> counter_created f cs) \<and>
   (CallClearError f \<notin> set (takeWhile (\<lambda>c. c \<noteq> CallCollect) (rev cs)) \<longrightarrow>
      increments_since_reset f cs = increments_since_collect f cs) \<and>
   snd (run_collector c (cs @ CallCollect # cs')) =
     snd (run_collector c cs) @ snd (Collect (fst (run_collector c cs))) #
       snd (run_collector (fst (Collect (fst (run_collector c cs)))) cs')"
proof (intro conjI impI)
  have "distinct (map fst (errors (fst (run_collector new_Collector cs))))"
    by (rule distinct_run_collector) (simp add: new_Collector_def)
  then show "errors_samples f (snd (Collect (fst (run_collector new_Collector cs)))) =
     (if counter_created f cs then [real (increments_since_reset f cs)] else [])"
    by (simp add: Collect_samples counter_after_run)
next
  assume "counter_created f cs"
  then show "counter_created f (cs @ cs')"
    by (auto simp: counter_created_def)
next
  assume "CallIncError f \<in> set cs"
  then show "counter_created f cs"
    by (simp add: counter_created_def)
next
  assume no_clear: "CallClearError f \<notin> set (takeWhile (\<lambda>c. c \<noteq> CallCollect) (rev cs))"
  have "takeWhile (\<lambda>c. c \<noteq> CallCollect \<and> c \<noteq> CallClearError f) xs =
        takeWhile (\<lambda>c. c \<noteq> CallCollect) xs"
    if "CallClearError f \<notin> set (takeWhile (\<lambda>c. c \<noteq> CallCollect) xs)" for xs
    using that by (induction xs) (auto split: if_splits)
  from this [OF no_clear]
  show "increments_since_reset f cs = increments_since_collect f cs"
    by (simp add: increments_since_reset_def increments_since_collect_def)
next
  show "snd (run_collector c (cs @ CallCollect # cs')) =
     snd (run_collector c cs) @ snd (Collect (fst (run_collector c cs))) #
       snd (run_collector (fst (Collect (fst (run_collector c cs)))) cs')"
    by (simp add: run_collector_append Let_def)
qed

theorem Collect_errors_samples_witness:
  "counter_created ''f.json'' [CallIncError ''f.json'', CallIncError ''f.json''] \<and>
   CallIncError ''f.json'' \<in> set [CallIncError ''f.json'', CallIncError ''f.json''] \<and>
   CallClearError ''f.json'' \<notin>
     set (takeWhile (\<lambda>c. c \<noteq> CallCollect) (rev [CallIncError ''f.json'', CallIncError ''f.json''])) \<and>
   increments_since_collect ''f.json'' [CallIncError ''f.json'', CallIncError ''f.json''] = 2 \<and>
   errors_samples ''f.json''
     (snd (Collect (fst (run_collector new_Collector [CallIncError ''f.json'', CallIncError ''f.json'']))))
     = [2] \<and>
   counter_created ''f.json'' ([CallIncError ''f.json'', CallIncError ''f.json''] @ [CallCollect]) \<and>
   errors_samples ''f.json''
     (snd (Collect (fst (run_collector new_Collector
        ([CallIncError ''f.json'', CallIncError ''f.json''] @ [CallCollect])))))
     = [0]"
proof -
  let ?cs = "[CallIncError ''f.json'', CallIncError ''f.json'']"
  have a: "counter_created ''f.json'' ?cs"
    by (simp add: counter_created_def)
  have b: "increments_since_collect ''f.json'' ?cs = 2"
    by (simp add: increments_since_collect_def)
  have c: "increments_since_reset ''f.json'' (?cs @ [CallCollect]) = 0"
    by (simp add: increments_since_reset_def)
  have d: "CallClearError ''f.json'' \<notin> set (takeWhile (\<lambda>c. c \<noteq> CallCollect) (rev ?cs))"
    by simp
  note t1 = Collect_errors_samples [of "''f.json''" ?cs "[CallCollect]"]
  note t2 = Collect_errors_samples [of "''f.json''" "?cs @ [CallCollect]"]
  from t1 a have a': "counter_created ''f.json'' (?cs @ [CallCollect])" by blast
  from t1 d b have e: "increments_since_reset ''f.json'' ?cs = 2" by simp
  from t1 a e have s1: "errors_samples ''f.json''
     (snd (Collect (fst (run_collector new_Collector ?cs)))) = [2]" by simp
  from t2 a' c have s2: "errors_samples ''f.json''
     (snd (Collect (fst (run_collector new_Collector (?cs @ [CallCollect]))))) = [0]" by simp
  show ?thesis
    using a a' b d s1 s2 by simp
qed

section \<open>Filesystem backend: the readiness probe\<close>

lemma readiness_entries_fresh:
  "all_fresh now entries \<Longrightarrow> readiness_entries now entries errs = errs"
  by (induction entries arbitrary: errs) (auto simp: all_fresh_def split: sum.splits)

lemma readiness_entries_stale:
  "all_stale now entries \<Longrightarrow>
   readiness_entries now entries errs =
     errs @ replicate (length entries) no_dump_files_newer_than_maxAge"
  by (induction entries arbitrary: errs)
     (auto simp: all_stale_def replicate_app_Cons_same split: sum.splits)

text \<open>
  Claim C4, as stated, fails: the probe looks at the age of the files.  A directory holding
  one manifest last modified twenty seconds ago is answered with 503.
\<close>

theorem filesystem_ProbeReadiness_counterexample:
  "filesystem_ProbeReadiness ''/tmp/ssl-pinning'' (Inr [old_manifest]) 20000000000 =
     \<lparr>probe_status = 503, probe_lines = [no_dump_files_newer_than_maxAge]\<rparr>"
  by (simp add: filesystem_ProbeReadiness_def old_manifest_def time_Sub_def maxAge_def)

text \<open>
  Claim C4, amended.  The filesystem readiness probe answers 200, with no body, when the dump
  directory holds at least one entry and every entry was modified less than ten seconds ago;
  it answers 503 with a diagnostic body when the directory cannot be read, when it holds no
  entry, and when it holds entries none of which was modified within the last ten seconds.
\<close>

theorem filesystem_ProbeReadiness_responses:
  "(ReadDir = Inl err \<longrightarrow>
      filesystem_ProbeReadiness dumpDir ReadDir now =
        \<lparr>probe_status = 503, probe_lines = [failed_to_read_dump_dir dumpDir err]\<rparr>) \<and>
   (ReadDir = Inr [] \<longrightarrow>
      filesystem_ProbeReadiness dumpDir ReadDir now =
        \<lparr>probe_status = 503, probe_lines = [no_dump_files_found]\<rparr>) \<and>
   (ReadDir = Inr entries \<and> entries \<noteq> [] \<and> all_fresh now entries \<longrightarrow>
      filesystem_ProbeReadiness dumpDir ReadDir now = \<lparr>probe_status = 200, probe_lines = []\<rparr>) \<and>
   (ReadDir = Inr entries \<and> entries \<noteq> [] \<and> all_stale now entries \<longrightarrow>
      filesystem_ProbeReadiness dumpDir ReadDir now =
        \<lparr>probe_status = 503,
         probe_lines = replicate (length entries) no_dump_files_newer_than_maxAge\<rparr>)"
  by (auto simp: filesystem_ProbeReadiness_def readiness_entries_fresh readiness_entries_stale)

theorem filesystem_ProbeReadiness_responses_witness:
  "filesystem_ProbeReadiness ''/tmp/ssl-pinning'' (Inl ''permission denied'') 20000000000 =
     \<lparr>probe_status = 503,
      probe_lines = [failed_to_read_dump_dir ''/tmp/ssl-pinning'' ''permission denied'']\<rparr> \<and>
   filesystem_ProbeReadiness ''/tmp/ssl-pinning'' (Inr []) 20000000000 =
     \<lparr>probe_status = 503, probe_lines = [no_dump_files_found]\<rparr> \<and>
   [new_manifest] \<noteq> [] \<and> all_fresh 20000000000 [new_manifest] \<and>
   filesystem_ProbeReadiness ''/tmp/ssl-pinning'' (Inr [new_manifest]) 20000000000 =
     \<lparr>probe_status = 200, probe_lines = []\<rparr> \<and>
   [old_manifest, old_manifest] \<noteq> [] \<and> all_stale 20000000000 [old_manifest, old_manifest] \<and>
   filesystem_ProbeReadiness ''/tmp/ssl-pinning'' (Inr [old_manifest, old_manifest]) 20000000000 =
     \<lparr>probe_status = 503,
      probe_lines = [no_dump_files_newer_than_maxAge, no_dump_files_newer_than_maxAge]\<rparr>"
proof -
  have f: "all_fresh 20000000000 [new_manifest]"
    by (simp add: all_fresh_def new_manifest_def time_Sub_def maxAge_def)
  have s: "all_stale 20000000000 [old_manifest, old_manifest]"
    by (simp add: all_stale_def old_manifest_def time_Sub_def maxAge_def)
  show ?thesis
    using f s
      filesystem_ProbeReadiness_responses [of "Inl ''permission denied''" "''permission denied''"
        "''/tmp/ssl-pinning''" 20000000000]
      filesystem_ProbeReadiness_responses [of "Inr []" _ "''/tmp/ssl-pinning''" 20000000000]
      filesystem_ProbeReadiness_responses [of "Inr [new_manifest]" _ "''/tmp/ssl-pinning''"
        20000000000 "[new_manifest]"]
      filesystem_ProbeReadiness_responses [of "Inr [old_manifest, old_manifest]" _
        "''/tmp/ssl-pinning''" 20000000000 "[old_manifest, old_manifest]"]
    by (simp add: numeral_2_eq_2)
qed

section \<open>Redis backend: \<open>SaveKeys\<close>\<close>

lemma redis_step_frame:
  "HSet_error (fst (redis_SaveKeys_step acc kv)) = HSet_error (fst acc) \<and>
   redis_appID (fst (redis_SaveKeys_step acc kv)) = redis_appID (fst acc)"
  by (simp add: redis_SaveKeys_step_def Let_def split: option.splits)

lemma redis_step_skip:
  "Key (snd kv) = [] \<Longrightarrow> redis_SaveKeys_step acc kv = acc"
  by (simp add: redis_SaveKeys_step_def Let_def)

lemma redis_fold_skip:
  "foldl redis_SaveKeys_step acc keys =
   foldl redis_SaveKeys_step acc (filter (\<lambda>kv. Key (snd kv) \<noteq> []) keys)"
  by (induction keys arbitrary: acc) (simp_all add: redis_step_skip)

lemma redis_fold_errs:
  "snd (foldl redis_SaveKeys_step acc keys) = [] \<longleftrightarrow>
     snd acc = [] \<and>
     (\<forall>kv \<in> set keys. Key (snd kv) \<noteq> [] \<longrightarrow>
        HSet_error (fst acc) (redis_hash (fst acc) (snd kv)) = None)"
proof (induction keys arbitrary: acc)
  case Nil
  then show ?case by simp
next
  case (Cons kv keys)
  have frame: "HSet_error (fst (redis_SaveKeys_step acc kv)) = HSet_error (fst acc)"
    "redis_hash (fst (redis_SaveKeys_step acc kv)) = redis_hash (fst acc)"
    using redis_step_frame [of acc kv] by (auto simp: redis_hash_def fun_eq_iff)
  have here: "snd (redis_SaveKeys_step acc kv) = [] \<longleftrightarrow>
      snd acc = [] \<and> (Key (snd kv) \<noteq> [] \<longrightarrow>
        HSet_error (fst acc) (redis_hash (fst acc) (snd kv)) = None)"
    by (auto simp: redis_SaveKeys_step_def Let_def split: option.splits)
  show ?case
    by (simp add: Cons.IH frame here)
qed

lemma redis_fold_backend_errors:
  "\<forall>e \<in> set (snd acc). \<exists>m. e = BackendError m \<Longrightarrow>
   \<forall>e \<in> set (snd (foldl redis_SaveKeys_step acc keys)). \<exists>m. e = BackendError m"
proof (induction keys arbitrary: acc)
  case Nil
  then show ?case by simp
next
  case (Cons kv keys)
  have "\<forall>e \<in> set (snd (redis_SaveKeys_step acc kv)). \<exists>m. e = BackendError m"
    using Cons.prems by (auto simp: redis_SaveKeys_step_def Let_def split: option.splits)
  from Cons.IH [OF this] show ?case by simp
qed

lemma map_of_HSet_other: "h \<noteq> hash \<Longrightarrow> map_of (HSet hashes hash values) h = map_of hashes h"
  by (simp add: HSet_def update_conv')

lemma redis_fold_untouched:
  "\<forall>kv \<in> set keys. Key (snd kv) \<noteq> [] \<longrightarrow> redis_hash (fst acc) (snd kv) \<noteq> h \<Longrightarrow>
   map_of (redis_hashes (fst (foldl redis_SaveKeys_step acc keys))) h =
     map_of (redis_hashes (fst acc)) h"
proof (induction keys arbitrary: acc)
  case Nil
  then show ?case by simp
next
  case (Cons kv keys)
  have frame: "redis_hash (fst (redis_SaveKeys_step acc kv)) = redis_hash (fst acc)"
    using redis_step_frame [of acc kv] by (auto simp: redis_hash_def fun_eq_iff)
  have here: "map_of (redis_hashes (fst (redis_SaveKeys_step acc kv))) h =
      map_of (redis_hashes (fst acc)) h"
    using Cons.prems
    by (auto simp: redis_SaveKeys_step_def Let_def map_of_HSet_other split: option.splits)
  have "\<forall>kv' \<in> set keys. Key (snd kv') \<noteq> [] \<longrightarrow>
      redis_hash (fst (redis_SaveKeys_step acc kv)) (snd kv') \<noteq> h"
    using Cons.prems by (simp add: frame)
  from Cons.IH [OF this] here show ?case by simp
qed

text \<open>
  Claim C9.  For the Redis backend and every input map, records with an empty \<open>Key\<close> change
  neither the store nor the result of \<open>SaveKeys\<close>: the call behaves as on the input without
  them, and leaves every hash untouched that is not the hash of an input record with a
  non-empty \<open>Key\<close>.  \<open>SaveKeys\<close> returns nil exactly when no \<open>HSET\<close> of a record with a non-empty
  \<open>Key\<close> fails, and the errors it aggregates are errors of the client only.  The memory backend
  returns an error for the same input as soon as one record has an empty \<open>Key\<close>.
\<close>

theorem redis_SaveKeys_skips_empty_keys:
  "redis_SaveKeys s keys = redis_SaveKeys s (filter (\<lambda>kv. Key (snd kv) \<noteq> []) keys) \<and>
   (snd (redis_SaveKeys s keys) = None \<longleftrightarrow>
      (\<forall>kv \<in> set keys. Key (snd kv) \<noteq> [] \<longrightarrow> HSet_error s (redis_hash s (snd kv)) = None)) \<and>
   (\<forall>errs. snd (redis_SaveKeys s keys) = Some errs \<longrightarrow>
      (\<forall>e \<in> set errs. \<exists>m. e = BackendError m)) \<and>
   (\<forall>h. (\<forall>kv \<in> set keys. Key (snd kv) \<noteq> [] \<longrightarrow> redis_hash s (snd kv) \<noteq> h) \<longrightarrow>
      map_of (redis_hashes (fst (redis_SaveKeys s keys))) h = map_of (redis_hashes s) h) \<and>
   ((\<exists>kv \<in> set keys. Key (snd kv) = []) \<longrightarrow> snd (memory_SaveKeys m keys) \<noteq> None)"
proof (intro conjI allI impI)
  show "redis_SaveKeys s keys = redis_SaveKeys s (filter (\<lambda>kv. Key (snd kv) \<noteq> []) keys)"
    unfolding redis_SaveKeys_def using redis_fold_skip [of "(s, [])" keys] by simp
next
  show "snd (redis_SaveKeys s keys) = None \<longleftrightarrow>
      (\<forall>kv \<in> set keys. Key (snd kv) \<noteq> [] \<longrightarrow> HSet_error s (redis_hash s (snd kv)) = None)"
  proof -
    have e: "snd (foldl redis_SaveKeys_step (s, []) keys) = [] \<longleftrightarrow>
        (\<forall>kv \<in> set keys. Key (snd kv) \<noteq> [] \<longrightarrow> HSet_error s (redis_hash s (snd kv)) = None)"
      using redis_fold_errs [of "(s, [])" keys] by (simp only: fst_conv snd_conv simp_thms)
    have "snd (redis_SaveKeys s keys) = None \<longleftrightarrow> snd (foldl redis_SaveKeys_step (s, []) keys) = []"
      by (simp add: redis_SaveKeys_def Let_def)
    then show ?thesis by (simp only: e)
  qed
next
  fix errs
  assume "snd (redis_SaveKeys s keys) = Some errs"
  then have "errs = snd (foldl redis_SaveKeys_step (s, []) keys)"
    by (simp add: redis_SaveKeys_def Let_def split: if_splits)
  moreover have "\<forall>e \<in> set (snd (foldl redis_SaveKeys_step (s, []) keys)). \<exists>m. e = BackendError m"
    by (rule redis_fold_backend_errors) simp
  ultimately show "\<forall>e \<in> set errs. \<exists>m. e = BackendError m" by simp
next
  fix h
  assume "\<forall>kv \<in> set keys. Key (snd kv) \<noteq> [] \<longrightarrow> redis_hash s (snd kv) \<noteq> h"
  then show "map_of (redis_hashes (fst (redis_SaveKeys s keys))) h = map_of (redis_hashes s) h"
    using redis_fold_untouched [of keys "(s, [])" h] by (simp add: redis_SaveKeys_def Let_def)
next
  assume "\<exists>kv \<in> set keys. Key (snd kv) = []"
  then have "fst (foldl memory_SaveKeys_step ([], []) keys) \<noteq> []"
    by (auto simp: SaveKeys_fold_errs)
  then show "snd (memory_SaveKeys m keys) \<noteq> None"
    by (simp add: memory_SaveKeys_def Let_def)
qed

theorem redis_SaveKeys_skips_empty_keys_witness:
  "Key (snd (''c.test'', rec_unprobed)) = [] \<and>
   redis_SaveKeys empty_redis three_targets =
     redis_SaveKeys empty_redis [(''a.test'', rec_a), (''b.test'', rec_b)] \<and>
   snd (redis_SaveKeys empty_redis three_targets) = None \<and>
   map_of (redis_hashes (fst (redis_SaveKeys empty_redis three_targets))) ''f.json:c.test:app'' = None \<and>
   snd (memory_SaveKeys empty_memory three_targets) \<noteq> None"
proof -
  have f: "filter (\<lambda>kv. Key (snd kv) \<noteq> []) three_targets = [(''a.test'', rec_a), (''b.test'', rec_b)]"
    by (simp add: three_targets_def rec_a_def rec_b_def rec_unprobed_def)
  have ok: "\<forall>kv \<in> set three_targets. Key (snd kv) \<noteq> [] \<longrightarrow>
      HSet_error empty_redis (redis_hash empty_redis (snd kv)) = None"
    by (simp add: empty_redis_def)
  have other: "\<forall>kv \<in> set three_targets. Key (snd kv) \<noteq> [] \<longrightarrow>
      redis_hash empty_redis (snd kv) \<noteq> ''f.json:c.test:app''"
    by (simp add: three_targets_def redis_hash_def empty_redis_def rec_a_def rec_b_def rec_unprobed_def)
  have e: "\<exists>kv \<in> set three_targets. Key (snd kv) = []"
    by (simp add: three_targets_def rec_unprobed_def)
  have u: "Key (snd (''c.test'', rec_unprobed)) = []"
    by (simp add: rec_unprobed_def)
  have z: "map_of (redis_hashes empty_redis) ''f.json:c.test:app'' = None"
    by (simp add: empty_redis_def)
  note t = redis_SaveKeys_skips_empty_keys [of empty_redis three_targets empty_memory]
  from t f have c1: "redis_SaveKeys empty_redis three_targets =
     redis_SaveKeys empty_redis [(''a.test'', rec_a), (''b.test'', rec_b)]"
    by simp
  from t ok have c2: "snd (redis_SaveKeys empty_redis three_targets) = None"
    by blast
  from t other have "map_of (redis_hashes (fst (redis_SaveKeys empty_redis three_targets)))
      ''f.json:c.test:app'' = map_of (redis_hashes empty_redis) ''f.json:c.test:app''"
    by blast
  with z have c3: "map_of (redis_hashes (fst (redis_SaveKeys empty_redis three_targets)))
      ''f.json:c.test:app'' = None"
    by simp
  from t e have c4: "snd (memory_SaveKeys empty_memory three_targets) \<noteq> None"
    by blast
  from u c1 c2 c3 c4 show ?thesis by simp
qed

section \<open>Redis and PostgreSQL backends: \<open>GetByFile\<close>\<close>
















end
